theory Spec2Isabelle
  imports Main "HOL-Library.Sublist" "HOL-Library.Multiset"
begin

section \<open>Python strings\<close>

text \<open>
  A Python \<open>str\<close> is modelled as a \<open>string\<close>; a \<open>char\<close> stands for a code point
  below 256. The functions below are the library functions that \<open>scraper.py\<close> calls
  on strings: \<open>str.strip()\<close>, \<open>str.startswith\<close>, \<open>str.split\<close>, \<open>str.join\<close>
  and the decimal rendering of a natural number inside an f-string.
\<close>

abbreviation NL :: string where
  "NL \<equiv> [CHR 0x0A]"

text \<open>\<open>str.isspace\<close> on one code point below 256.\<close>

definition isspace :: "char \<Rightarrow> bool" where
  "isspace c = (c \<in> set [CHR 0x09, CHR 0x0A, CHR 0x0B, CHR 0x0C, CHR 0x0D,
                           CHR 0x1C, CHR 0x1D, CHR 0x1E, CHR 0x1F, CHR 0x20,
                           CHR 0x85, CHR 0xA0])"

text \<open>\<open>s.strip()\<close>: drop the whitespace at both ends.\<close>

definition strip :: "string \<Rightarrow> string" where
  "strip s = rev (dropWhile isspace (rev (dropWhile isspace s)))"

text \<open>\<open>s.startswith(p)\<close>.\<close>

fun startswith :: "string \<Rightarrow> string \<Rightarrow> bool" where
  "startswith s [] = True"
| "startswith [] (p # ps) = False"
| "startswith (x # xs) (p # ps) = (x = p \<and> startswith xs ps)"

text \<open>\<open>s.split(c)\<close> for a one-character separator: one more piece than separators.\<close>

fun str_split :: "char \<Rightarrow> string \<Rightarrow> string list" where
  "str_split c [] = [[]]"
| "str_split c (x # xs) =
     (if x = c then [] # str_split c xs
      else (case str_split c xs of
              [] \<Rightarrow> [[x]]
            | p # ps \<Rightarrow> (x # p) # ps))"

text \<open>\<open>sep.join(parts)\<close>.\<close>

fun str_join :: "string \<Rightarrow> string list \<Rightarrow> string" where
  "str_join sep [] = []"
| "str_join sep [p] = p"
| "str_join sep (p # q # ps) = p @ sep @ str_join sep (q # ps)"

text \<open>
  \<open>xs[:n]\<close>: for \<open>n \<ge> 0\<close> the first \<open>n\<close> items, for \<open>n < 0\<close> all but the last \<open>-n\<close>.
\<close>

definition slice_to :: "int \<Rightarrow> 'a list \<Rightarrow> 'a list" where
  "slice_to n xs =
     (if 0 \<le> n then take (nat n) xs else take (nat (int (length xs) + n)) xs)"

definition digit_char :: "nat \<Rightarrow> char" where
  "digit_char d = ''0123456789'' ! d"

text \<open>\<open>str(n)\<close> for a natural number, as an f-string renders \<open>{len(xs)}\<close>.\<close>

function str_nat :: "nat \<Rightarrow> string" where
  "str_nat n = (if n < 10 then [digit_char n] else str_nat (n div 10) @ [digit_char (n mod 10)])"
  by pat_completeness auto
termination
  by (relation "measure (\<lambda>n. n)") auto

declare str_nat.simps [simp del]

text \<open>\<open>s.zfill(w)\<close> on a string of digits: pad with zeros on the left.\<close>

definition zfill :: "nat \<Rightarrow> string \<Rightarrow> string" where
  "zfill w s = replicate (w - length s) CHR ''0'' @ s"

section \<open>Clock readings\<close>

text \<open>
  A naive \<open>datetime\<close> as \<open>datetime.now()\<close> returns it. \<open>strftime('%Y-%m-%d')\<close> keeps
  the calendar day only; \<open>isoformat()\<close> adds the time of day, with the microseconds
  left out when they are zero.
\<close>

record datetime =
  year :: nat
  month :: nat
  day :: nat
  hour :: nat
  minute :: nat
  second :: nat
  microsecond :: nat

definition strftime_Ymd :: "datetime \<Rightarrow> string" where
  "strftime_Ymd d =
     zfill 4 (str_nat (year d)) @ ''-'' @ zfill 2 (str_nat (month d)) @ ''-'' @
     zfill 2 (str_nat (day d))"

definition isoformat :: "datetime \<Rightarrow> string" where
  "isoformat d =
     strftime_Ymd d @ ''T'' @ zfill 2 (str_nat (hour d)) @ '':'' @
     zfill 2 (str_nat (minute d)) @ '':'' @ zfill 2 (str_nat (second d)) @
     (if microsecond d = 0 then [] else ''.'' @ zfill 6 (str_nat (microsecond d)))"

section \<open>Exceptions\<close>

text \<open>
  An exception is its class and its message (\<open>str(e)\<close>). A function that can raise
  returns \<open>exn + 'a\<close>, with \<open>Inl\<close> for the exception.
\<close>

datatype exn_class =
    RequestException | HTTPError | ParserError | SelectorSyntaxError
  | ValueError | OverflowError | JSONDecodeError
  | FileNotFoundError | NotADirectoryError | IsADirectoryError | FileExistsError
  | PermissionError | OSError

datatype exn = Exn exn_class string

fun exn_str :: "exn \<Rightarrow> string" where
  "exn_str (Exn k msg) = msg"

text \<open>The class of an exception, which an \<open>except\<close> clause tests.\<close>

fun exn_class_of :: "exn \<Rightarrow> exn_class" where
  "exn_class_of (Exn k msg) = k"

section \<open>Data model\<close>

text \<open>
  The configuration dictionary: \<open>competitors\<close> keeps the insertion order of the
  dictionary, which is the order \<open>.items()\<close> iterates in.
\<close>

record selector_set =
  sel_title :: string
  sel_date :: string
  sel_summary :: string

record competitor =
  blog_url :: string
  selectors :: selector_set

record config =
  competitors :: "(string \<times> competitor) list"
  max_articles :: int
  delay_between_requests :: int

text \<open>The article dictionary built for each title element.\<close>

record article =
  title :: string
  url :: string
  source :: string
  scraped_at :: string

text \<open>
  A tag selected from the page: its text (\<open>get_text()\<close>) and its attributes
  (\<open>get(name, default)\<close>).
\<close>

record element =
  get_text :: string
  attrs :: "string \<rightharpoonup> string"

definition attr_get :: "element \<Rightarrow> string \<Rightarrow> string \<Rightarrow> string" where
  "attr_get el k dflt = (case attrs el k of None \<Rightarrow> dflt | Some v \<Rightarrow> v)"

section \<open>The outside world\<close>

text \<open>
  The collaborators of the scraper are parameters: \<open>session_get\<close> is
  \<open>session.get(url, timeout=10)\<close> (it raises on a network error or a timeout),
  \<open>html_parser\<close> is \<open>BeautifulSoup(content, 'html.parser')\<close>, and the parsed page is
  represented by what \<open>soup.select\<close> answers for each selector. \<open>open_read\<close> is
  \<open>open(name, 'r')\<close> when the program starts: the text of the file, or the exception
  that \<open>open\<close> raises for that name (\<open>FileNotFoundError\<close> when no file has it, another
  class of \<open>OSError\<close> or \<open>ValueError\<close> otherwise). \<open>json_load\<close> is \<open>json.load\<close> on that
  text.
\<close>

record response =
  status_code :: nat
  reason :: string
  resp_url :: string
  content :: string

type_synonym soup = "string \<Rightarrow> exn + element list"

record env =
  session_get :: "string \<Rightarrow> exn + response"
  html_parser :: "string \<Rightarrow> exn + soup"
  open_read :: "string \<Rightarrow> exn + string"
  json_load :: "string \<Rightarrow> exn + config"

text \<open>\<open>response.raise_for_status()\<close>: raises for the 4xx and 5xx codes.\<close>

definition raise_for_status :: "response \<Rightarrow> exn + unit" where
  "raise_for_status r =
     (if 400 \<le> status_code r \<and> status_code r < 500 then
        Inl (Exn HTTPError (str_nat (status_code r) @ '' Client Error: '' @ reason r @
                            '' for url: '' @ resp_url r))
      else if 500 \<le> status_code r \<and> status_code r < 600 then
        Inl (Exn HTTPError (str_nat (status_code r) @ '' Server Error: '' @ reason r @
                            '' for url: '' @ resp_url r))
      else Inr ())"

text \<open>
  The state the program reads and changes: the files and directories, the lines
  printed, the readings that the successive calls of \<open>datetime.now()\<close> return, and the
  pauses taken by \<open>time.sleep\<close>.
\<close>

record world =
  files :: "string \<rightharpoonup> string"
  dirs :: "string set"
  stdout :: "string list"
  clock :: "nat \<Rightarrow> datetime"
  now_calls :: nat
  sleeps :: "int list"

definition py_print :: "string \<Rightarrow> world \<Rightarrow> world" where
  "py_print s w = w\<lparr>stdout := stdout w @ [s]\<rparr>"

definition datetime_now :: "world \<Rightarrow> datetime \<times> world" where
  "datetime_now w = (clock w (now_calls w), w\<lparr>now_calls := Suc (now_calls w)\<rparr>)"

text \<open>
  \<open>time.sleep(s)\<close> for an integer \<open>s\<close>: the length is converted to nanoseconds in 64
  bits, which raises \<open>OverflowError\<close> beyond 9223372036 seconds on either side; a
  negative length that converts raises \<open>ValueError\<close>.
\<close>

definition max_sleep :: int where
  "max_sleep = 9223372036"

definition time_sleep :: "int \<Rightarrow> world \<Rightarrow> (exn + unit) \<times> world" where
  "time_sleep s w =
     (if s > max_sleep \<or> s < - max_sleep then
        (Inl (Exn OverflowError ''timestamp too large to convert to C _PyTime_t''), w)
      else if s < 0 then (Inl (Exn ValueError ''sleep length must be non-negative''), w)
      else (Inr (), w\<lparr>sleeps := sleeps w @ [s]\<rparr>))"

section \<open>Configuration\<close>

definition get_default_config :: config where
  "get_default_config =
     \<lparr>competitors =
        [(''OpenAI'',
          \<lparr>blog_url = ''https://openai.com/blog'',
           selectors = \<lparr>sel_title = ''h3 a'', sel_date = ''.published-date'',
                        sel_summary = ''.excerpt''\<rparr>\<rparr>),
         (''Google AI'',
          \<lparr>blog_url = ''https://ai.googleblog.com/'',
           selectors = \<lparr>sel_title = ''.post-title a'', sel_date = ''.published'',
                        sel_summary = ''.post-body''\<rparr>\<rparr>)],
      max_articles = 5,
      delay_between_requests = 2\<rparr>"

text \<open>
  \<open>load_config\<close>: the \<open>try\<close> block opens the file and parses its text; the \<open>except\<close>
  clause catches \<open>FileNotFoundError\<close> only, whichever of the two statements raised it,
  and every other exception leaves the function.
\<close>

definition load_config :: "env \<Rightarrow> string \<Rightarrow> world \<Rightarrow> (exn + config) \<times> world" where
  "load_config env config_file w =
     (case (case open_read env config_file of
              Inl e \<Rightarrow> Inl e
            | Inr f \<Rightarrow> json_load env f) of
        Inr cfg \<Rightarrow> (Inr cfg, w)
      | Inl e \<Rightarrow>
          if exn_class_of e = FileNotFoundError then
            (Inr get_default_config,
             py_print (''Config file '' @ config_file @ '' not found. Using default settings.'') w)
          else (Inl e, w))"

section \<open>Scraping one competitor\<close>

text \<open>The dictionary literal of the loop body, with the clock reading \<open>t\<close>.\<close>

definition new_article :: "string \<Rightarrow> element \<Rightarrow> datetime \<Rightarrow> article" where
  "new_article name title_element t =
     \<lparr>title = strip (get_text title_element),
      url = attr_get title_element ''href'' '''',
      source = name,
      scraped_at = isoformat t\<rparr>"

text \<open>Make the URL absolute if it is relative.\<close>

definition make_absolute :: "competitor \<Rightarrow> article \<Rightarrow> article" where
  "make_absolute c a =
     (if url a \<noteq> [] \<and> \<not> startswith (url a) ''http'' then
        (let base_url = str_join ''/'' (slice_to 3 (str_split CHR ''/'' (blog_url c)))
         in a\<lparr>url := base_url @ url a\<rparr>)
      else a)"

text \<open>The loop over the title elements; each pass reads the clock once.\<close>

fun build_articles :: "string \<Rightarrow> competitor \<Rightarrow> element list \<Rightarrow> world \<Rightarrow> article list \<times> world" where
  "build_articles name c [] w = ([], w)"
| "build_articles name c (title_element # rest) w =
     (case datetime_now w of
        (t, w1) \<Rightarrow>
          (case build_articles name c rest w1 of
             (articles, w2) \<Rightarrow>
               (make_absolute c (new_article name title_element t) # articles, w2)))"

text \<open>
  The statements of the \<open>try\<close> block before the loop: fetch, check the status, parse,
  select. Each of them can raise.
\<close>

definition select_candidates :: "env \<Rightarrow> competitor \<Rightarrow> exn + element list" where
  "select_candidates env c =
     (case session_get env (blog_url c) of
        Inl e \<Rightarrow> Inl e
      | Inr response \<Rightarrow>
          (case raise_for_status response of
             Inl e \<Rightarrow> Inl e
           | Inr u \<Rightarrow>
               (case html_parser env (content response) of
                  Inl e \<Rightarrow> Inl e
                | Inr soup \<Rightarrow> soup (sel_title (selectors c)))))"

definition select_titles :: "env \<Rightarrow> config \<Rightarrow> competitor \<Rightarrow> exn + element list" where
  "select_titles env cfg c =
     (case select_candidates env c of
        Inl e \<Rightarrow> Inl e
      | Inr els \<Rightarrow> Inr (slice_to (max_articles cfg) els))"

text \<open>\<open>scrape_competitor\<close>: every exception of the \<open>try\<close> block ends in \<open>return []\<close>.\<close>

definition scrape_competitor ::
    "env \<Rightarrow> config \<Rightarrow> string \<Rightarrow> competitor \<Rightarrow> world \<Rightarrow> article list \<times> world" where
  "scrape_competitor env cfg name c w =
     (let w1 = py_print (''Scraping '' @ name @ ''...'') w in
      case select_titles env cfg c of
        Inl e \<Rightarrow> ([], py_print (''Error scraping '' @ name @ '': '' @ exn_str e) w1)
      | Inr title_elements \<Rightarrow>
          (case build_articles name c title_elements w1 of
             (articles, w2) \<Rightarrow>
               (articles,
                py_print (''Found '' @ str_nat (length articles) @ '' articles from '' @ name) w2)))"

section \<open>Scraping all competitors\<close>

text \<open>
  The loop of \<open>scrape_all_competitors\<close> over \<open>competitors.items()\<close>, with the list
  \<open>all_articles\<close> collected so far. An exception of \<open>time.sleep\<close> is not caught.
\<close>

fun scrape_loop ::
    "env \<Rightarrow> config \<Rightarrow> (string \<times> competitor) list \<Rightarrow> article list \<Rightarrow> world
      \<Rightarrow> (exn + article list) \<times> world" where
  "scrape_loop env cfg [] all_articles w = (Inr all_articles, w)"
| "scrape_loop env cfg ((name, c) # rest) all_articles w =
     (case scrape_competitor env cfg name c w of
        (articles, w1) \<Rightarrow>
          (case time_sleep (delay_between_requests cfg) w1 of
             (Inl e, w2) \<Rightarrow> (Inl e, w2)
           | (Inr u, w2) \<Rightarrow> scrape_loop env cfg rest (all_articles @ articles) w2))"

definition scrape_all_competitors :: "env \<Rightarrow> config \<Rightarrow> world \<Rightarrow> (exn + article list) \<times> world" where
  "scrape_all_competitors env cfg w = scrape_loop env cfg (competitors cfg) [] w"

section \<open>The report\<close>

text \<open>
  The dictionary \<open>by_source\<close> keeps its keys in insertion order: storing under a new
  key appends it, storing under a key already there replaces the value in place.
\<close>

fun dict_set :: "('k \<times> 'v) list \<Rightarrow> 'k \<Rightarrow> 'v \<Rightarrow> ('k \<times> 'v) list" where
  "dict_set [] k v = [(k, v)]"
| "dict_set ((k', v') # d) k v =
     (if k' = k then (k, v) # d else (k', v') # dict_set d k v)"

text \<open>One pass of the grouping loop: create the empty list if needed, then append.\<close>

definition add_article :: "(string \<times> article list) list \<Rightarrow> article \<Rightarrow> (string \<times> article list) list" where
  "add_article by_source a =
     (let src = source a;
          d1 = (if src \<notin> set (map fst by_source) then dict_set by_source src [] else by_source)
      in case map_of d1 src of
           None \<Rightarrow> d1
         | Some source_articles \<Rightarrow> dict_set d1 src (source_articles @ [a]))"

definition group_by_source :: "article list \<Rightarrow> (string \<times> article list) list" where
  "group_by_source articles = foldl add_article [] articles"

definition report_header :: "string \<Rightarrow> nat \<Rightarrow> string" where
  "report_header today n =
     ''# AI Competitive Intelligence Report'' @ NL @
     ''**Date**: '' @ today @ NL @
     ''**Articles Found**: '' @ str_nat n @ NL @
     NL @
     ''## Summary'' @ NL @
     ''This report contains the latest updates from key AI companies and competitors.'' @ NL @
     NL"

text \<open>What the inner loop adds for one article.\<close>

definition add_article_lines :: "string \<Rightarrow> article \<Rightarrow> string" where
  "add_article_lines report_content a =
     (let r1 = report_content @ ''### '' @ title a @ NL;
          r2 = (if url a \<noteq> [] then r1 @ ''**Link**: ['' @ url a @ '']('' @ url a @ '')'' @ NL
                else r1)
      in r2 @ ''**Scraped**: '' @ scraped_at a @ NL @ NL)"

text \<open>What the outer loop adds for one source.\<close>

definition add_section :: "string \<Rightarrow> string \<times> article list \<Rightarrow> string" where
  "add_section report_content item =
     (case item of
        (src, source_articles) \<Rightarrow>
          foldl add_article_lines
            (report_content @ ''## '' @ src @ '' ('' @ str_nat (length source_articles) @
               '' articles)'' @ NL @ NL)
            source_articles)"

definition generate_report :: "article list \<Rightarrow> world \<Rightarrow> string \<times> world" where
  "generate_report articles w =
     (case datetime_now w of
        (t, w1) \<Rightarrow>
          (let today = strftime_Ymd t;
               report_content = report_header today (length articles);
               by_source = group_by_source articles
           in (foldl add_section report_content by_source, w1)))"

section \<open>Saving the report and the daily run\<close>

text \<open>
  \<open>os.makedirs(path, exist_ok=True)\<close> raises when a file has the name; writing to a
  name that a directory has raises too.
\<close>

definition os_makedirs :: "string \<Rightarrow> world \<Rightarrow> (exn + unit) \<times> world" where
  "os_makedirs path w =
     (if path \<in> dom (files w) then
        (Inl (Exn FileExistsError
               (''[Errno 17] File exists: '' @ [CHR 0x27] @ path @ [CHR 0x27])), w)
      else (Inr (), w\<lparr>dirs := insert path (dirs w)\<rparr>))"

definition write_file :: "string \<Rightarrow> string \<Rightarrow> world \<Rightarrow> (exn + unit) \<times> world" where
  "write_file path text w =
     (if path \<in> dirs w then
        (Inl (Exn IsADirectoryError
               (''[Errno 21] Is a directory: '' @ [CHR 0x27] @ path @ [CHR 0x27])), w)
      else (Inr (), w\<lparr>files := (files w)(path \<mapsto> text)\<rparr>))"

definition save_report :: "string \<Rightarrow> world \<Rightarrow> (exn + string) \<times> world" where
  "save_report report_content w =
     (case os_makedirs ''reports'' w of
        (Inl e, w1) \<Rightarrow> (Inl e, w1)
      | (Inr u, w1) \<Rightarrow>
          (case datetime_now w1 of
             (t, w2) \<Rightarrow>
               (let today = strftime_Ymd t;
                    filename = ''reports/ai_competitive_report_'' @ today @ ''.md''
                in case write_file filename report_content w2 of
                     (Inl e, w3) \<Rightarrow> (Inl e, w3)
                   | (Inr u', w3) \<Rightarrow>
                       (Inr filename, py_print (''Report saved to '' @ filename) w3))))"

definition run_daily_scrape :: "env \<Rightarrow> config \<Rightarrow> world \<Rightarrow> (exn + unit) \<times> world" where
  "run_daily_scrape env cfg w =
     (let w0 = py_print ''Starting daily competitive intelligence scrape...'' w in
      case scrape_all_competitors env cfg w0 of
        (Inl e, w1) \<Rightarrow> (Inl e, w1)
      | (Inr articles, w1) \<Rightarrow>
          if articles \<noteq> [] then
            (case generate_report articles w1 of
               (report, w2) \<Rightarrow>
                 (case save_report report w2 of
                    (Inl e, w3) \<Rightarrow> (Inl e, w3)
                  | (Inr filename, w3) \<Rightarrow>
                      (Inr (),
                       py_print (''Total articles found: '' @ str_nat (length articles))
                         (py_print (''Report saved: '' @ filename)
                            (py_print ''Daily scrape completed successfully!'' w3)))))
          else (Inr (), py_print ''No articles found during scraping.'' w1))"

text \<open>
  \<open>main\<close>: the constructor loads \<open>config.json\<close>, then the daily run starts. Nothing
  catches what the constructor raises.
\<close>

definition main :: "env \<Rightarrow> world \<Rightarrow> (exn + unit) \<times> world" where
  "main env w =
     (case load_config env ''config.json'' w of
        (Inl e, w1) \<Rightarrow> (Inl e, w1)
      | (Inr cfg, w1) \<Rightarrow> run_daily_scrape env cfg w1)"

section \<open>Notions used to state the properties\<close>

text \<open>
  The final URL of an article, as the specification words it: empty when the link
  attribute is empty or absent, the attribute unchanged when it begins with \<open>http\<close>,
  otherwise the first three \<open>/\<close>-delimited segments of the listing URL, joined again,
  followed by the attribute as it is.
\<close>

definition final_url :: "competitor \<Rightarrow> element \<Rightarrow> string" where
  "final_url c el =
     (let raw = attr_get el ''href'' '''' in
      if raw = [] then []
      else if prefix ''http'' raw then raw
      else str_join ''/'' (take 3 (str_split CHR ''/'' (blog_url c))) @ raw)"

text \<open>An article without its capture time.\<close>

definition article_core :: "article \<Rightarrow> string \<times> string \<times> string" where
  "article_core a = (title a, url a, source a)"

text \<open>
  What one competitor contributes, without capture times: nothing when the fetch, the
  status check, the parse or the selection raises, otherwise one article for each
  title element kept.
\<close>

definition competitor_articles ::
    "env \<Rightarrow> config \<Rightarrow> string \<times> competitor \<Rightarrow> (string \<times> string \<times> string) list" where
  "competitor_articles env cfg item =
     (case item of
        (name, c) \<Rightarrow>
          (case select_titles env cfg c of
             Inl e \<Rightarrow> []
           | Inr els \<Rightarrow> map (\<lambda>el. (strip (get_text el), final_url c el, name)) els))"


section \<open>A small scenario\<close>

text \<open>
  Two competitors: the fetch of \<open>A\<close> times out, the page of \<open>B\<close> has three title
  elements, of which two are kept.
\<close>

definition demo_clock :: "nat \<Rightarrow> datetime" where
  "demo_clock n =
     \<lparr>year = 2024, month = 3, day = 7, hour = 9, minute = 5, second = n, microsecond = 0\<rparr>"

definition demo_world :: world where
  "demo_world =
     \<lparr>files = Map.empty, dirs = {}, stdout = [], clock = demo_clock, now_calls = 0,
      sleeps = []\<rparr>"

definition demo_el1 :: element where
  "demo_el1 = \<lparr>get_text = ''  First post '', attrs = [''href'' \<mapsto> ''/posts/1'']\<rparr>"

definition demo_el2 :: element where
  "demo_el2 = \<lparr>get_text = ''Second'', attrs = [''href'' \<mapsto> ''https://b.example/2'']\<rparr>"

definition demo_el3 :: element where
  "demo_el3 = \<lparr>get_text = '' '', attrs = Map.empty\<rparr>"

definition demo_elements :: "element list" where
  "demo_elements = [demo_el1, demo_el2, demo_el3]"

definition demo_json_error :: exn where
  "demo_json_error =
     Exn JSONDecodeError
       ''Expecting property name enclosed in double quotes: line 1 column 2 (char 1)''"

definition demo_env :: env where
  "demo_env =
     \<lparr>session_get =
        (\<lambda>u. if u = ''https://a.example/blog'' then Inl (Exn RequestException ''timed out'')
             else Inr \<lparr>status_code = 200, reason = ''OK'', resp_url = u, content = ''<p>''\<rparr>),
      html_parser = (\<lambda>b. Inr (\<lambda>sel. if sel = ''h3 a'' then Inr demo_elements else Inr [])),
      open_read =
        (\<lambda>p. if p = ''config.json'' then Inr ''{''
             else Inl (Exn FileNotFoundError
                        (''[Errno 2] No such file or directory: '' @ [CHR 0x27] @ p @ [CHR 0x27]))),
      json_load = (\<lambda>s. Inl demo_json_error)\<rparr>"

definition demo_selectors :: selector_set where
  "demo_selectors = \<lparr>sel_title = ''h3 a'', sel_date = ''.date'', sel_summary = ''.sum''\<rparr>"

definition demo_A :: competitor where
  "demo_A = \<lparr>blog_url = ''https://a.example/blog'', selectors = demo_selectors\<rparr>"

definition demo_B :: competitor where
  "demo_B = \<lparr>blog_url = ''https://example.com/blog/index'', selectors = demo_selectors\<rparr>"

definition demo_cfg :: config where
  "demo_cfg =
     \<lparr>competitors = [(''A'', demo_A), (''B'', demo_B)],
      max_articles = 2, delay_between_requests = 1\<rparr>"

definition demo_cfg5 :: config where
  "demo_cfg5 =
     \<lparr>competitors = [(''A'', demo_A), (''B'', demo_B)],
      max_articles = 5, delay_between_requests = 1\<rparr>"

section \<open>Notions used to state the properties of the report\<close>

text \<open>
  The distinct items of a list in the order in which each is first met.
\<close>

fun first_seen :: "'a list \<Rightarrow> 'a list" where
  "first_seen [] = []"
| "first_seen (x # xs) = x # removeAll x (first_seen xs)"

text \<open>The subsection of one article and the section of one source, as text.\<close>

definition article_text :: "article \<Rightarrow> string" where
  "article_text a =
     ''### '' @ title a @ NL @
     (if url a = [] then [] else ''**Link**: ['' @ url a @ '']('' @ url a @ '')'' @ NL) @
     ''**Scraped**: '' @ scraped_at a @ NL @ NL"

definition section_text :: "string \<times> article list \<Rightarrow> string" where
  "section_text item =
     ''## '' @ fst item @ '' ('' @ str_nat (length (snd item)) @ '' articles)'' @ NL @ NL @
     concat (map article_text (snd item))"

definition demo_article :: "string \<Rightarrow> string \<Rightarrow> article" where
  "demo_article t s =
     \<lparr>title = t, url = '''', source = s, scraped_at = ''2024-03-07T09:05:00''\<rparr>"

definition demo_articles :: "article list" where
  "demo_articles = [demo_article ''x1'' ''X'', demo_article ''y1'' ''Y'', demo_article ''x2'' ''X'']"

definition demo_world2 :: world where
  "demo_world2 =
     \<lparr>files = [''notes.txt'' \<mapsto> ''n''], dirs = {''reports''}, stdout = [''earlier''],
      clock = (\<lambda>n. \<lparr>year = 2024, month = 3, day = 7, hour = 23, minute = 59, second = 58,
                       microsecond = 120\<rparr>),
      now_calls = 4, sleeps = [2]\<rparr>"

definition demo_cfgA :: config where
  "demo_cfgA = \<lparr>competitors = [(''A'', demo_A)], max_articles = 2, delay_between_requests = 1\<rparr>"


section \<open>Facts about the loop over the title elements\<close>

lemma build_articles_length: "length (fst (build_articles name c els w)) = length els"
  by (induction els arbitrary: w) (simp_all add: datetime_now_def case_prod_beta)

lemma build_articles_world:
  "snd (build_articles name c els w) = w\<lparr>now_calls := now_calls w + length els\<rparr>"
  by (induction els arbitrary: w) (simp_all add: datetime_now_def case_prod_beta)

lemma title_make_absolute: "title (make_absolute c a) = title a"
  by (simp add: make_absolute_def Let_def)

lemma source_make_absolute: "source (make_absolute c a) = source a"
  by (simp add: make_absolute_def Let_def)

lemma scraped_at_make_absolute: "scraped_at (make_absolute c a) = scraped_at a"
  by (simp add: make_absolute_def Let_def)

lemma startswith_prefix: "startswith s p = prefix p s"
  by (induction s p rule: startswith.induct) auto

lemma url_make_absolute: "url (make_absolute c (new_article name el t)) = final_url c el"
  by (simp add: make_absolute_def new_article_def final_url_def Let_def startswith_prefix
        slice_to_def)

lemma build_articles_title:
  "map title (fst (build_articles name c els w)) = map (\<lambda>el. strip (get_text el)) els"
  by (induction els arbitrary: w)
     (simp_all add: datetime_now_def case_prod_beta title_make_absolute new_article_def)

lemma build_articles_url:
  "map url (fst (build_articles name c els w)) = map (final_url c) els"
  by (induction els arbitrary: w)
     (simp_all add: datetime_now_def case_prod_beta url_make_absolute)

lemma build_articles_core:
  "map article_core (fst (build_articles name c els w)) =
     map (\<lambda>el. (strip (get_text el), final_url c el, name)) els"
  by (induction els arbitrary: w)
     (simp_all add: datetime_now_def case_prod_beta article_core_def url_make_absolute
        title_make_absolute source_make_absolute, simp_all add: new_article_def)

lemma build_articles_scraped_at:
  "map scraped_at (fst (build_articles name c els w)) =
     map (\<lambda>i. isoformat (clock w (now_calls w + i))) [0..<length els]"
proof (induction els arbitrary: w)
  case Nil
  show ?case by simp
next
  case (Cons el els)
  have shift: "[0..<Suc (length els)] = 0 # map Suc [0..<length els]"
    by (simp add: upt_conv_Cons map_Suc_upt del: upt_Suc)
  show ?case
    using Cons.IH [of "w\<lparr>now_calls := Suc (now_calls w)\<rparr>"]
    by (simp add: datetime_now_def case_prod_beta scraped_at_make_absolute new_article_def
          shift comp_def del: upt_Suc)
qed

section \<open>Facts about one competitor and about the loop over all of them\<close>

lemma scrape_competitor_fst:
  "fst (scrape_competitor env cfg name c w) =
     (case select_titles env cfg c of
        Inl e \<Rightarrow> []
      | Inr els \<Rightarrow> fst (build_articles name c els (py_print (''Scraping '' @ name @ ''...'') w)))"
  by (simp add: scrape_competitor_def Let_def case_prod_beta split: sum.splits)

lemma scrape_competitor_core:
  "map article_core (fst (scrape_competitor env cfg name c w)) =
     competitor_articles env cfg (name, c)"
  by (simp add: scrape_competitor_fst competitor_articles_def build_articles_core
        split: sum.splits)

lemma scrape_competitor_frame:
  "files (snd (scrape_competitor env cfg name c w)) = files w"
  "dirs (snd (scrape_competitor env cfg name c w)) = dirs w"
  "clock (snd (scrape_competitor env cfg name c w)) = clock w"
  "now_calls (snd (scrape_competitor env cfg name c w)) =
     now_calls w + length (fst (scrape_competitor env cfg name c w))"
  by (simp_all add: scrape_competitor_def Let_def case_prod_beta build_articles_world
        build_articles_length py_print_def split: sum.splits)

lemma scrape_competitor_scraped_at:
  "map scraped_at (fst (scrape_competitor env cfg name c w)) =
     map (\<lambda>i. isoformat (clock w (now_calls w + i)))
       [0..<length (fst (scrape_competitor env cfg name c w))]"
  by (simp add: scrape_competitor_fst build_articles_scraped_at build_articles_length
        py_print_def split: sum.splits)

lemma map_upt_add:
  "map f [0..<m + n] = map f [0..<m] @ map (\<lambda>i. f (m + i)) [0..<n]"
proof -
  have "[0..<m + n] = [0..<m] @ map (\<lambda>i. m + i) [0..<n]"
    by (induction n) simp_all
  then show ?thesis by (simp add: comp_def)
qed

lemma time_sleep_ok:
  "0 \<le> s \<Longrightarrow> s \<le> max_sleep \<Longrightarrow> time_sleep s w = (Inr (), w\<lparr>sleeps := sleeps w @ [s]\<rparr>)"
  by (simp add: time_sleep_def max_sleep_def)

lemma time_sleep_frame:
  "files (snd (time_sleep s w)) = files w"
  "dirs (snd (time_sleep s w)) = dirs w"
  by (simp_all add: time_sleep_def)

lemma scrape_loop_ok:
  assumes delay: "0 \<le> delay_between_requests cfg" "delay_between_requests cfg \<le> max_sleep"
  shows "\<exists>arts. fst (scrape_loop env cfg cs acc w) = Inr (acc @ arts) \<and>
           map article_core arts = concat (map (competitor_articles env cfg) cs) \<and>
           map scraped_at arts =
             map (\<lambda>i. isoformat (clock w (now_calls w + i))) [0..<length arts] \<and>
           files (snd (scrape_loop env cfg cs acc w)) = files w \<and>
           dirs (snd (scrape_loop env cfg cs acc w)) = dirs w \<and>
           clock (snd (scrape_loop env cfg cs acc w)) = clock w \<and>
           now_calls (snd (scrape_loop env cfg cs acc w)) = now_calls w + length arts"
proof (induction cs arbitrary: acc w)
  case Nil
  show ?case by simp
next
  case (Cons item cs)
  obtain name c where item: "item = (name, c)" by (cases item)
  define a1 where "a1 = fst (scrape_competitor env cfg name c w)"
  define w1 where "w1 = snd (scrape_competitor env cfg name c w)"
  define w2 where "w2 = w1\<lparr>sleeps := sleeps w1 @ [delay_between_requests cfg]\<rparr>"
  have step: "scrape_loop env cfg (item # cs) acc w = scrape_loop env cfg cs (acc @ a1) w2"
    by (simp add: item a1_def w1_def w2_def time_sleep_ok [OF delay] case_prod_beta)
  have w2: "files w2 = files w" "dirs w2 = dirs w" "clock w2 = clock w"
    "now_calls w2 = now_calls w + length a1"
    by (simp_all add: w2_def w1_def a1_def scrape_competitor_frame)
  from Cons.IH [of "acc @ a1" w2] obtain arts where
    r: "fst (scrape_loop env cfg cs (acc @ a1) w2) = Inr ((acc @ a1) @ arts)" and
    core: "map article_core arts = concat (map (competitor_articles env cfg) cs)" and
    stamps: "map scraped_at arts =
               map (\<lambda>i. isoformat (clock w2 (now_calls w2 + i))) [0..<length arts]" and
    frame: "files (snd (scrape_loop env cfg cs (acc @ a1) w2)) = files w2"
      "dirs (snd (scrape_loop env cfg cs (acc @ a1) w2)) = dirs w2"
      "clock (snd (scrape_loop env cfg cs (acc @ a1) w2)) = clock w2"
      "now_calls (snd (scrape_loop env cfg cs (acc @ a1) w2)) = now_calls w2 + length arts"
    by blast
  have "fst (scrape_loop env cfg (item # cs) acc w) = Inr (acc @ (a1 @ arts))"
    using r by (simp add: step)
  moreover have "map article_core (a1 @ arts) =
      concat (map (competitor_articles env cfg) (item # cs))"
    by (simp add: core item a1_def scrape_competitor_core)
  moreover have "map scraped_at (a1 @ arts) =
      map (\<lambda>i. isoformat (clock w (now_calls w + i))) [0..<length (a1 @ arts)]"
    using stamps scrape_competitor_scraped_at [of env cfg name c w]
    by (simp add: a1_def [symmetric] w2 map_upt_add add.assoc)
  moreover have "files (snd (scrape_loop env cfg (item # cs) acc w)) = files w"
    "dirs (snd (scrape_loop env cfg (item # cs) acc w)) = dirs w"
    "clock (snd (scrape_loop env cfg (item # cs) acc w)) = clock w"
    "now_calls (snd (scrape_loop env cfg (item # cs) acc w)) = now_calls w + length (a1 @ arts)"
    using frame by (simp_all add: step w2)
  ultimately show ?case by blast
qed


lemma demo_select_titles:
  "select_titles demo_env demo_cfg demo_A = Inl (Exn RequestException ''timed out'')"
  "select_titles demo_env demo_cfg demo_B = Inr [demo_el1, demo_el2]"
  by (simp_all add: select_titles_def select_candidates_def demo_env_def demo_cfg_def
        demo_A_def demo_B_def demo_selectors_def raise_for_status_def slice_to_def
        demo_elements_def)

section \<open>Aggregation isolates the failures\<close>





lemma demo_select_candidates: "select_candidates demo_env demo_B = Inr demo_elements"
  by (simp add: select_candidates_def demo_env_def demo_B_def demo_selectors_def
        raise_for_status_def)

lemma demo_strip:
  "strip (get_text demo_el1) = ''First post''"
  "strip (get_text demo_el2) = ''Second''"
  "strip (get_text demo_el3) = []"
  by (simp_all add: strip_def isspace_def demo_el1_def demo_el2_def demo_el3_def)

lemma demo_final_url:
  "final_url demo_B demo_el1 = ''https://example.com/posts/1''"
  "final_url demo_B demo_el2 = ''https://b.example/2''"
  "final_url demo_B demo_el3 = []"
  by (simp_all add: final_url_def attr_get_def demo_el1_def demo_el2_def demo_el3_def
        demo_B_def)

section \<open>Facts about the string functions\<close>

lemma str_split_not_Nil: "str_split c s \<noteq> []"
  by (induction s) (auto split: list.splits)

lemma str_join_str_split: "str_join [c] (str_split c s) = s"
proof (induction s)
  case Nil
  show ?case by simp
next
  case (Cons x xs)
  obtain p ps where ps: "str_split c xs = p # ps"
    using str_split_not_Nil [of c xs] by (cases "str_split c xs") auto
  show ?case
    using Cons.IH by (cases ps) (simp_all add: ps)
qed

lemma strip_decomposition:
  "\<exists>pre suf. s = pre @ strip s @ suf \<and> list_all isspace pre \<and> list_all isspace suf"
proof -
  define r where "r = dropWhile isspace s"
  have "s = takeWhile isspace s @ r"
    by (simp add: r_def)
  moreover have "r = strip s @ rev (takeWhile isspace (rev r))"
  proof -
    have "rev (takeWhile isspace (rev r) @ dropWhile isspace (rev r)) = r"
      by simp
    then have "rev (dropWhile isspace (rev r)) @ rev (takeWhile isspace (rev r)) = r"
      by (simp only: rev_append)
    then show ?thesis
      by (simp only: strip_def r_def)
  qed
  moreover have "list_all isspace (takeWhile isspace s)"
    by (simp add: list_all_iff) (meson set_takeWhileD)
  moreover have "list_all isspace (rev (takeWhile isspace (rev r)))"
    by (simp add: list_all_iff) (meson set_takeWhileD)
  ultimately show ?thesis
    by metis
qed

lemma strip_ends:
  "strip s = [] \<or> (\<not> isspace (hd (strip s)) \<and> \<not> isspace (last (strip s)))"
proof (cases "strip s = []")
  case True
  then show ?thesis by simp
next
  case False
  define r where "r = dropWhile isspace s"
  define q where "q = dropWhile isspace (rev r)"
  have sq: "strip s = rev q"
    by (simp add: strip_def q_def r_def)
  with False have q: "q \<noteq> []" by simp
  then have "\<not> isspace (hd q)"
    unfolding q_def by (rule hd_dropWhile)
  then have l: "\<not> isspace (last (strip s))"
    using q by (simp add: sq last_rev)
  have r: "r \<noteq> []"
    using q by (auto simp: q_def)
  then have hr: "\<not> isspace (hd r)"
    unfolding r_def by (rule hd_dropWhile)
  have "\<exists>suf. r = strip s @ suf"
    using strip_decomposition [of s]
    by (metis (no_types) r_def strip_def takeWhile_dropWhile_id rev_rev_ident rev_append)
  then obtain suf where "r = strip s @ suf" by blast
  with False have "hd r = hd (strip s)" by (metis hd_append2)
  with hr l show ?thesis by simp
qed

section \<open>The articles of one competitor\<close>

text \<open>
  C2. For a limit \<open>max_articles \<ge> 0\<close>, \<open>scrape_competitor\<close> returns at most
  \<open>max_articles\<close> articles, whatever the page and the selectors are; and when the
  selection yields the candidate elements \<open>els\<close> in document order, the articles
  returned are those of the first \<open>max_articles\<close> candidates, in that order.
\<close>

theorem scrape_competitor_truncates:
  assumes "0 \<le> max_articles cfg"
  shows "length (fst (scrape_competitor env cfg name c w)) \<le> nat (max_articles cfg) \<and>
         (select_candidates env c = Inr els \<longrightarrow>
            map article_core (fst (scrape_competitor env cfg name c w)) =
              map (\<lambda>el. (strip (get_text el), final_url c el, name))
                (take (nat (max_articles cfg)) els))"
proof (cases "select_candidates env c")
  case (Inl e)
  then show ?thesis
    by (simp add: scrape_competitor_fst select_titles_def)
next
  case (Inr cands)
  then have sel: "select_titles env cfg c = Inr (take (nat (max_articles cfg)) cands)"
    using assms by (simp add: select_titles_def slice_to_def)
  show ?thesis
    by (simp add: scrape_competitor_fst sel Inr build_articles_length build_articles_core)
qed

theorem scrape_competitor_truncates_witness:
  "0 \<le> max_articles demo_cfg \<and>
   select_candidates demo_env demo_B = Inr [demo_el1, demo_el2, demo_el3] \<and>
   length (fst (scrape_competitor demo_env demo_cfg ''B'' demo_B demo_world)) \<le> 2 \<and>
   map article_core (fst (scrape_competitor demo_env demo_cfg ''B'' demo_B demo_world)) =
     [(''First post'', ''https://example.com/posts/1'', ''B''),
      (''Second'', ''https://b.example/2'', ''B'')]"
proof -
  have m: "0 \<le> max_articles demo_cfg" "nat (max_articles demo_cfg) = 2"
    by (simp_all add: demo_cfg_def)
  show ?thesis
    using scrape_competitor_truncates [OF m(1), of demo_env "''B''" demo_B demo_world
        demo_elements]
    by (simp add: m demo_select_candidates demo_strip demo_final_url)
       (simp add: demo_elements_def demo_strip demo_final_url)
qed

text \<open>
  C3. When the selection succeeds with the title elements \<open>els\<close>, the URL of each
  article is \<open>final_url\<close> of its element: empty when the link attribute is empty, the
  attribute unchanged when it begins with \<open>http\<close>, otherwise the first three
  \<open>/\<close>-delimited segments of the listing URL, joined by \<open>/\<close>, followed by the
  attribute as it is.
\<close>

theorem scrape_competitor_url:
  assumes "select_titles env cfg c = Inr els"
  shows "map url (fst (scrape_competitor env cfg name c w)) = map (final_url c) els"
  by (simp add: scrape_competitor_fst assms build_articles_url)

theorem scrape_competitor_url_witness:
  "blog_url demo_B = ''https://example.com/blog/index'' \<and>
   select_titles demo_env demo_cfg demo_B = Inr [demo_el1, demo_el2] \<and>
   attr_get demo_el1 ''href'' '''' = ''/posts/1'' \<and>
   attr_get demo_el2 ''href'' '''' = ''https://b.example/2'' \<and>
   map url (fst (scrape_competitor demo_env demo_cfg ''B'' demo_B demo_world)) =
     [''https://example.com/posts/1'', ''https://b.example/2'']"
proof -
  have b: "blog_url demo_B = ''https://example.com/blog/index''"
    by (simp add: demo_B_def)
  have a: "attr_get demo_el1 ''href'' '''' = ''/posts/1''"
    "attr_get demo_el2 ''href'' '''' = ''https://b.example/2''"
    by (simp_all add: attr_get_def demo_el1_def demo_el2_def)
  have "map url (fst (scrape_competitor demo_env demo_cfg ''B'' demo_B demo_world)) =
      [''https://example.com/posts/1'', ''https://b.example/2'']"
    using scrape_competitor_url [OF demo_select_titles(2), of "''B''" demo_world]
    by (simp add: demo_final_url)
  with b a demo_select_titles(2) show ?thesis
    by simp
qed

text \<open>
  C7. When the selection succeeds with the title elements \<open>els\<close>, there is one
  article for each element, and its title is the text of the element without the
  whitespace at its two ends: the text is the title between two runs of whitespace,
  and the title is empty or neither begins nor ends with whitespace. An empty title
  is an article like any other. For an element without \<open>href\<close> attribute the link
  read from it is the empty string, and so is the URL of its article.
\<close>

theorem scrape_competitor_title:
  assumes "select_titles env cfg c = Inr els"
  shows "length (fst (scrape_competitor env cfg name c w)) = length els \<and>
         map title (fst (scrape_competitor env cfg name c w)) =
           map (\<lambda>el. strip (get_text el)) els \<and>
         (\<forall>el \<in> set els.
            (\<exists>pre suf. get_text el = pre @ strip (get_text el) @ suf \<and>
               list_all isspace pre \<and> list_all isspace suf) \<and>
            (strip (get_text el) = [] \<or>
             (\<not> isspace (hd (strip (get_text el))) \<and>
              \<not> isspace (last (strip (get_text el)))))) \<and>
         (\<forall>i < length els. attrs (els ! i) ''href'' = None \<longrightarrow>
            attr_get (els ! i) ''href'' '''' = [] \<and>
            url (fst (scrape_competitor env cfg name c w) ! i) = [])"
proof -
  let ?arts = "fst (scrape_competitor env cfg name c w)"
  have len: "length ?arts = length els"
    by (simp add: scrape_competitor_fst assms build_articles_length)
  have titles: "map title ?arts = map (\<lambda>el. strip (get_text el)) els"
    by (simp add: scrape_competitor_fst assms build_articles_title)
  have urls: "map url ?arts = map (final_url c) els"
    by (simp add: scrape_competitor_fst assms build_articles_url)
  have absent: "attr_get (els ! i) ''href'' '''' = [] \<and> url (?arts ! i) = []"
    if "i < length els" "attrs (els ! i) ''href'' = None" for i
  proof -
    have "url (?arts ! i) = final_url c (els ! i)"
      using that(1) len urls by (metis nth_map)
    then show ?thesis
      using that(2) by (simp add: final_url_def attr_get_def)
  qed
  show ?thesis
    using len titles absent strip_decomposition strip_ends by blast
qed

theorem scrape_competitor_title_witness:
  "select_titles demo_env demo_cfg5 demo_B = Inr [demo_el1, demo_el2, demo_el3] \<and>
   get_text demo_el3 = '' '' \<and> attrs demo_el3 ''href'' = None \<and>
   map title (fst (scrape_competitor demo_env demo_cfg5 ''B'' demo_B demo_world)) =
     [''First post'', ''Second'', ''''] \<and>
   url (fst (scrape_competitor demo_env demo_cfg5 ''B'' demo_B demo_world) ! 2) = ''''"
proof -
  have sel: "select_titles demo_env demo_cfg5 demo_B = Inr [demo_el1, demo_el2, demo_el3]"
    by (simp add: select_titles_def demo_select_candidates demo_cfg5_def slice_to_def
          demo_elements_def)
  have el3: "get_text demo_el3 = '' ''" "attrs demo_el3 ''href'' = None"
    by (simp_all add: demo_el3_def)
  from scrape_competitor_title [OF sel, of "''B''" demo_world]
  have t: "map title (fst (scrape_competitor demo_env demo_cfg5 ''B'' demo_B demo_world)) =
        map (\<lambda>el. strip (get_text el)) [demo_el1, demo_el2, demo_el3]"
    and u: "\<forall>i < length [demo_el1, demo_el2, demo_el3].
        attrs ([demo_el1, demo_el2, demo_el3] ! i) ''href'' = None \<longrightarrow>
        attr_get ([demo_el1, demo_el2, demo_el3] ! i) ''href'' '''' = [] \<and>
        url (fst (scrape_competitor demo_env demo_cfg5 ''B'' demo_B demo_world) ! i) = []"
    by blast+
  from u have "url (fst (scrape_competitor demo_env demo_cfg5 ''B'' demo_B demo_world) ! 2) = []"
    using el3(2) u [rule_format, of 2] by simp
  moreover have "map title (fst (scrape_competitor demo_env demo_cfg5 ''B'' demo_B demo_world)) =
      [''First post'', ''Second'', []]"
    using t by (simp add: demo_strip)
  ultimately show ?thesis
    using sel el3 by simp
qed

section \<open>Facts about grouping by source\<close>

lemma set_first_seen: "set (first_seen xs) = set xs"
  by (induction xs) auto

lemma distinct_first_seen: "distinct (first_seen xs)"
  by (induction xs) (auto simp: distinct_removeAll)

lemma first_seen_snoc:
  "first_seen (xs @ [x]) = (if x \<in> set xs then first_seen xs else first_seen xs @ [x])"
  by (induction xs) auto

lemma map_of_tabulate:
  "k \<in> set ks \<Longrightarrow> map_of (map (\<lambda>s. (s, f s)) ks) k = Some (f k)"
  by (induction ks) auto

lemma dict_set_present:
  "distinct ks \<Longrightarrow> k \<in> set ks \<Longrightarrow>
     dict_set (map (\<lambda>s. (s, f s)) ks) k v = map (\<lambda>s. (s, if s = k then v else f s)) ks"
  by (induction ks) auto

lemma dict_set_absent:
  "k \<notin> set (map fst d) \<Longrightarrow> dict_set d k v = d @ [(k, v)]"
  by (induction d) auto

lemma dict_set_last:
  "k \<notin> set (map fst d) \<Longrightarrow> dict_set (d @ [(k, v)]) k v' = d @ [(k, v')]"
  by (induction d) auto

lemma map_of_last:
  "k \<notin> set (map fst d) \<Longrightarrow> map_of (d @ [(k, v)]) k = Some v"
  by (induction d) auto

lemma group_by_source_snoc:
  "group_by_source (arts @ [a]) = add_article (group_by_source arts) a"
  by (simp add: group_by_source_def)

lemma group_by_source_eq:
  "group_by_source arts =
     map (\<lambda>s. (s, filter (\<lambda>a. source a = s) arts)) (first_seen (map source arts))"
proof (induction arts rule: rev_induct)
  case Nil
  show ?case by (simp add: group_by_source_def)
next
  case (snoc a arts)
  let ?ks = "first_seen (map source arts)"
  let ?f = "\<lambda>s. filter (\<lambda>b. source b = s) arts"
  have keys: "map fst (map (\<lambda>s. (s, ?f s)) ?ks) = ?ks"
    by (simp add: comp_def)
  show ?case
  proof (cases "source a \<in> set (map source arts)")
    case True
    then have mem: "source a \<in> set ?ks"
      by (simp add: set_first_seen)
    have "add_article (map (\<lambda>s. (s, ?f s)) ?ks) a =
        map (\<lambda>s. (s, if s = source a then ?f (source a) @ [a] else ?f s)) ?ks"
      unfolding add_article_def Let_def keys
      using mem by (simp add: map_of_tabulate dict_set_present distinct_first_seen)
    also have "\<dots> = map (\<lambda>s. (s, filter (\<lambda>b. source b = s) (arts @ [a]))) ?ks"
      by (rule map_cong) auto
    finally show ?thesis
      using True by (simp add: group_by_source_snoc snoc.IH first_seen_snoc)
  next
    case False
    then have nomem: "source a \<notin> set ?ks"
      by (simp add: set_first_seen)
    have "source b \<noteq> source a" if "b \<in> set arts" for b
      using False that by (metis image_eqI list.set_map)
    then have none: "?f (source a) = []"
      by (simp add: filter_empty_conv)
    have absent: "source a \<notin> set (map fst (map (\<lambda>s. (s, ?f s)) ?ks))"
      using nomem by (simp only: keys not_False_eq_True)
    have "add_article (map (\<lambda>s. (s, ?f s)) ?ks) a = map (\<lambda>s. (s, ?f s)) ?ks @ [(source a, [a])]"
      unfolding add_article_def Let_def
      by (simp only: absent not_False_eq_True if_True dict_set_absent [OF absent] map_of_last [OF absent]
            dict_set_last [OF absent] option.case append_Nil)
    moreover have same: "map (\<lambda>s. (s, ?f s)) ?ks =
        map (\<lambda>s. (s, filter (\<lambda>b. source b = s) (arts @ [a]))) ?ks"
      using nomem by (intro map_cong) auto
    have fs: "first_seen (map source (arts @ [a])) = ?ks @ [source a]"
      using False by (simp add: first_seen_snoc)
    have last: "filter (\<lambda>b. source b = source a) (arts @ [a]) = [a]"
      using none by simp
    have "map (\<lambda>s. (s, filter (\<lambda>b. source b = s) (arts @ [a])))
            (first_seen (map source (arts @ [a]))) =
          map (\<lambda>s. (s, ?f s)) ?ks @ [(source a, [a])]"
      unfolding fs by (simp only: map_append list.map last same)
    ultimately show ?thesis
      by (simp only: group_by_source_snoc snoc.IH)
  qed
qed

section \<open>Facts about the text of the report\<close>

lemma add_article_lines_eq: "add_article_lines r a = r @ article_text a"
  by (simp add: add_article_lines_def article_text_def Let_def)

lemma foldl_add_article_lines:
  "foldl add_article_lines r as = r @ concat (map article_text as)"
  by (induction as arbitrary: r) (simp_all add: add_article_lines_eq)

lemma add_section_eq: "add_section r item = r @ section_text item"
  by (cases item) (simp add: add_section_def section_text_def foldl_add_article_lines)

lemma foldl_add_section:
  "foldl add_section r items = r @ concat (map section_text items)"
  by (induction items arbitrary: r) (simp_all add: add_section_eq)

lemma generate_report_eq:
  "generate_report arts w =
     (report_header (strftime_Ymd (clock w (now_calls w))) (length arts) @
        concat (map section_text (group_by_source arts)),
      w\<lparr>now_calls := Suc (now_calls w)\<rparr>)"
  by (simp add: generate_report_def datetime_now_def Let_def foldl_add_section)

lemma str_nat_digit: "n < 10 \<Longrightarrow> str_nat n = [digit_char n]"
  by (simp add: str_nat.simps)

lemma demo_today: "strftime_Ymd (clock demo_world (now_calls demo_world)) = ''2024-03-07''"
  by (simp add: demo_world_def demo_clock_def strftime_Ymd_def zfill_def str_nat.simps
        digit_char_def)

section \<open>The report groups by source in first-seen order\<close>

text \<open>
  C4. The report is its header followed by one section for each source, the sources
  taken in the order in which each is first met in the input; the section of a source
  lists the articles of that source in their input order. The dictionary built by the
  grouping loop has exactly these keys and lists.
\<close>

theorem generate_report_grouping:
  "group_by_source arts =
     map (\<lambda>s. (s, filter (\<lambda>a. source a = s) arts)) (first_seen (map source arts)) \<and>
   fst (generate_report arts w) =
     report_header (strftime_Ymd (clock w (now_calls w))) (length arts) @
     concat (map (\<lambda>s. section_text (s, filter (\<lambda>a. source a = s) arts))
               (first_seen (map source arts)))"
  by (simp add: generate_report_eq group_by_source_eq comp_def)

theorem generate_report_grouping_witness:
  "map source demo_articles = [''X'', ''Y'', ''X''] \<and>
   group_by_source demo_articles =
     [(''X'', [demo_article ''x1'' ''X'', demo_article ''x2'' ''X'']),
      (''Y'', [demo_article ''y1'' ''Y''])] \<and>
   fst (generate_report demo_articles demo_world) =
     report_header ''2024-03-07'' 3 @
     section_text (''X'', [demo_article ''x1'' ''X'', demo_article ''x2'' ''X'']) @
     section_text (''Y'', [demo_article ''y1'' ''Y''])"
proof -
  have s: "map source demo_articles = [''X'', ''Y'', ''X'']"
    by (simp add: demo_articles_def demo_article_def)
  have f: "filter (\<lambda>a. source a = ''X'') demo_articles =
             [demo_article ''x1'' ''X'', demo_article ''x2'' ''X'']"
    "filter (\<lambda>a. source a = ''Y'') demo_articles = [demo_article ''y1'' ''Y'']"
    by (simp_all add: demo_articles_def demo_article_def)
  have n: "length demo_articles = 3"
    by (simp add: demo_articles_def)
  show ?thesis
    using generate_report_grouping [of demo_articles demo_world]
    by (simp add: s f n demo_today)
qed

text \<open>
  C6. The text returned by \<open>generate_report\<close> depends on the articles and on the
  calendar day of the clock reading only: two calls with the same articles, made in
  any two states of the world whose clocks read the same day, return the same text.
\<close>

theorem generate_report_deterministic:
  assumes "year (clock w1 (now_calls w1)) = year (clock w2 (now_calls w2))"
    and "month (clock w1 (now_calls w1)) = month (clock w2 (now_calls w2))"
    and "day (clock w1 (now_calls w1)) = day (clock w2 (now_calls w2))"
  shows "fst (generate_report arts w1) = fst (generate_report arts w2)"
  using assms by (simp add: generate_report_eq strftime_Ymd_def)

theorem generate_report_deterministic_witness:
  "year (clock demo_world (now_calls demo_world)) = year (clock demo_world2 (now_calls demo_world2)) \<and>
   month (clock demo_world (now_calls demo_world)) = month (clock demo_world2 (now_calls demo_world2)) \<and>
   day (clock demo_world (now_calls demo_world)) = day (clock demo_world2 (now_calls demo_world2)) \<and>
   hour (clock demo_world (now_calls demo_world)) \<noteq> hour (clock demo_world2 (now_calls demo_world2)) \<and>
   fst (generate_report demo_articles demo_world) =
     fst (generate_report demo_articles demo_world2)"
proof -
  have d: "year (clock demo_world (now_calls demo_world)) =
             year (clock demo_world2 (now_calls demo_world2))"
    "month (clock demo_world (now_calls demo_world)) =
       month (clock demo_world2 (now_calls demo_world2))"
    "day (clock demo_world (now_calls demo_world)) =
       day (clock demo_world2 (now_calls demo_world2))"
    by (simp_all add: demo_world_def demo_world2_def demo_clock_def)
  have h: "hour (clock demo_world (now_calls demo_world)) \<noteq>
             hour (clock demo_world2 (now_calls demo_world2))"
    by (simp add: demo_world_def demo_world2_def demo_clock_def)
  show ?thesis
    using generate_report_deterministic [OF d, of demo_articles] d h by simp
qed

section \<open>The counts of the report\<close>

lemma sum_length_filter_snoc:
  "(\<Sum>s\<leftarrow>ks. length (filter (\<lambda>a. f a = s) (xs @ [x]))) =
      (\<Sum>s\<leftarrow>ks. length (filter (\<lambda>a. f a = s) xs)) + count_list ks (f x)"
  by (induction ks) auto

lemma count_list_distinct:
  "distinct ks \<Longrightarrow> count_list ks k = (if k \<in> set ks then 1 else 0)"
  by (induction ks) auto

lemma count_list_first_seen:
  "count_list (first_seen ys) k = (if k \<in> set ys then 1 else 0)"
  using count_list_distinct [OF distinct_first_seen] by (simp only: set_first_seen)

lemma count_list_first_seen_map: "count_list (first_seen (map f xs)) (f x) = (if f x \<in> set (map f xs) then 1 else 0)"
  by (rule count_list_first_seen)

lemma sum_length_filter_first_seen:
  "(\<Sum>s\<leftarrow>first_seen (map f xs). length (filter (\<lambda>a. f a = s) xs)) = length xs"
proof (induction xs rule: rev_induct)
  case Nil
  show ?case by simp
next
  case (snoc x xs)
  let ?ks = "first_seen (map f xs)"
  show ?case
  proof (cases "f x \<in> set (map f xs)")
    case True
    have "first_seen (map f (xs @ [x])) = ?ks"
      using True by (simp add: first_seen_snoc)
    then have "(\<Sum>s\<leftarrow>first_seen (map f (xs @ [x])). length (filter (\<lambda>a. f a = s) (xs @ [x]))) =
        (\<Sum>s\<leftarrow>?ks. length (filter (\<lambda>a. f a = s) xs)) + count_list ?ks (f x)"
      by (simp only: sum_length_filter_snoc)
    also have "\<dots> = length xs + 1"
      using True by (simp only: snoc.IH count_list_first_seen_map if_True)
    finally show ?thesis by simp
  next
    case False
    have none: "filter (\<lambda>a. f a = f x) xs = []"
      using False by (induction xs) auto
    have "first_seen (map f (xs @ [x])) = ?ks @ [f x]"
      using False by (simp add: first_seen_snoc)
    then have "(\<Sum>s\<leftarrow>first_seen (map f (xs @ [x])). length (filter (\<lambda>a. f a = s) (xs @ [x]))) =
        (\<Sum>s\<leftarrow>?ks. length (filter (\<lambda>a. f a = s) (xs @ [x]))) +
        length (filter (\<lambda>a. f a = f x) (xs @ [x]))"
      by simp
    also have "\<dots> = ((\<Sum>s\<leftarrow>?ks. length (filter (\<lambda>a. f a = s) xs)) + count_list ?ks (f x)) + 1"
      using none by (simp only: sum_length_filter_snoc) simp
    also have "\<dots> = length xs + 1"
      using False by (simp only: snoc.IH count_list_first_seen_map if_False) 
    finally show ?thesis by simp
  qed
qed

lemma mset_filter_disj:
  "mset (filter P xs) + mset (filter Q xs) = mset (filter (\<lambda>a. P a \<or> Q a) xs)"
  if "\<And>a. a \<in> set xs \<Longrightarrow> \<not> (P a \<and> Q a)"
  using that by (induction xs) auto

lemma mset_concat_filter_keys:
  "distinct ks \<Longrightarrow>
     mset (concat (map (\<lambda>s. filter (\<lambda>a. f a = s) xs) ks)) =
     mset (filter (\<lambda>a. f a \<in> set ks) xs)"
proof (induction ks)
  case Nil
  show ?case by simp
next
  case (Cons k ks)
  have "mset (filter (\<lambda>a. f a = k) xs) + mset (filter (\<lambda>a. f a \<in> set ks) xs) =
      mset (filter (\<lambda>a. f a = k \<or> f a \<in> set ks) xs)"
    using Cons.prems by (intro mset_filter_disj) auto
  then show ?case
    using Cons by simp
qed

lemma mset_concat_filter_first_seen:
  "mset (concat (map (\<lambda>s. filter (\<lambda>a. f a = s) xs) (first_seen (map f xs)))) = mset xs"
  using mset_concat_filter_keys [OF distinct_first_seen, of f xs "map f xs"]
  by (simp add: set_first_seen)

lemma group_by_source_keys:
  "map fst (group_by_source arts) = first_seen (map source arts)"
  by (simp add: group_by_source_eq comp_def)

lemma group_by_source_lists:
  "map snd (group_by_source arts) =
     map (\<lambda>s. filter (\<lambda>a. source a = s) arts) (first_seen (map source arts))"
  by (simp add: group_by_source_eq comp_def)

lemma group_by_source_own:
  "item \<in> set (group_by_source arts) \<Longrightarrow> a \<in> set (snd item) \<Longrightarrow> source a = fst item"
  by (auto simp: group_by_source_eq)

text \<open>
  C9. The report begins with the title line, the date line and the line
  \<open>**Articles Found**: n\<close>, where \<open>n\<close> is the number of input articles in decimal;
  after the summary come the sections of the grouping, each heading
  \<open>## source (k articles)\<close> carrying the length \<open>k\<close> of its list. The lengths of the
  lists add up to the number of input articles; the lists together hold exactly the
  input articles, each as often as the input does; the keys are distinct and every
  article is listed under its own source, so that every input article is in exactly
  one section.
\<close>

theorem generate_report_counts:
  "fst (generate_report arts w) =
     ''# AI Competitive Intelligence Report'' @ NL @
     ''**Date**: '' @ strftime_Ymd (clock w (now_calls w)) @ NL @
     ''**Articles Found**: '' @ str_nat (length arts) @ NL @
     NL @
     ''## Summary'' @ NL @
     ''This report contains the latest updates from key AI companies and competitors.'' @ NL @
     NL @
     concat (map (\<lambda>item. ''## '' @ fst item @ '' ('' @ str_nat (length (snd item)) @
                           '' articles)'' @ NL @ NL @ concat (map article_text (snd item)))
               (group_by_source arts)) \<and>
   (\<Sum>item\<leftarrow>group_by_source arts. length (snd item)) = length arts \<and>
   mset (concat (map snd (group_by_source arts))) = mset arts \<and>
   distinct (map fst (group_by_source arts)) \<and>
   (\<forall>item \<in> set (group_by_source arts). \<forall>a \<in> set (snd item). source a = fst item)"
proof -
  have "(\<Sum>item\<leftarrow>group_by_source arts. length (snd item)) =
      (\<Sum>s\<leftarrow>first_seen (map source arts). length (filter (\<lambda>a. source a = s) arts))"
    by (simp add: group_by_source_eq comp_def)
  then have total: "(\<Sum>item\<leftarrow>group_by_source arts. length (snd item)) = length arts"
    by (simp only: sum_length_filter_first_seen)
  have part: "mset (concat (map snd (group_by_source arts))) = mset arts"
    by (simp only: group_by_source_lists mset_concat_filter_first_seen)
  have keys: "distinct (map fst (group_by_source arts))"
    by (simp only: group_by_source_keys distinct_first_seen)
  have sec: "section_text = (\<lambda>item. ''## '' @ fst item @ '' ('' @ str_nat (length (snd item)) @
      '' articles)'' @ NL @ NL @ concat (map article_text (snd item)))"
    by (rule ext) (simp add: section_text_def)
  have report: "fst (generate_report arts w) =
     ''# AI Competitive Intelligence Report'' @ NL @
     ''**Date**: '' @ strftime_Ymd (clock w (now_calls w)) @ NL @
     ''**Articles Found**: '' @ str_nat (length arts) @ NL @
     NL @
     ''## Summary'' @ NL @
     ''This report contains the latest updates from key AI companies and competitors.'' @ NL @
     NL @
     concat (map (\<lambda>item. ''## '' @ fst item @ '' ('' @ str_nat (length (snd item)) @
                           '' articles)'' @ NL @ NL @ concat (map article_text (snd item)))
               (group_by_source arts))"
    unfolding sec [symmetric]
    by (simp add: generate_report_eq report_header_def)
  show ?thesis
    using report total part keys group_by_source_own by blast
qed

theorem generate_report_counts_witness:
  "length demo_articles = 3 \<and>
   map (\<lambda>item. length (snd item)) (group_by_source demo_articles) = [2, 1] \<and>
   (\<Sum>item\<leftarrow>group_by_source demo_articles. length (snd item)) = length demo_articles \<and>
   mset (concat (map snd (group_by_source demo_articles))) = mset demo_articles \<and>
   fst (generate_report demo_articles demo_world) =
     ''# AI Competitive Intelligence Report'' @ NL @
     ''**Date**: 2024-03-07'' @ NL @
     ''**Articles Found**: 3'' @ NL @
     NL @
     ''## Summary'' @ NL @
     ''This report contains the latest updates from key AI companies and competitors.'' @ NL @
     NL @
     ''## X (2 articles)'' @ NL @ NL @
     ''### x1'' @ NL @ ''**Scraped**: 2024-03-07T09:05:00'' @ NL @ NL @
     ''### x2'' @ NL @ ''**Scraped**: 2024-03-07T09:05:00'' @ NL @ NL @
     ''## Y (1 articles)'' @ NL @ NL @
     ''### y1'' @ NL @ ''**Scraped**: 2024-03-07T09:05:00'' @ NL @ NL"
proof -
  have n: "length demo_articles = 3"
    by (simp add: demo_articles_def)
  have g: "group_by_source demo_articles =
      [(''X'', [demo_article ''x1'' ''X'', demo_article ''x2'' ''X'']),
       (''Y'', [demo_article ''y1'' ''Y''])]"
    by (simp add: group_by_source_eq demo_articles_def demo_article_def)
  have a: "article_text (demo_article t s) =
      ''### '' @ t @ NL @ ''**Scraped**: 2024-03-07T09:05:00'' @ NL @ NL" for t s
    by (simp add: article_text_def demo_article_def)
  have d: "str_nat 3 = ''3''" "str_nat (Suc (Suc 0)) = ''2''" "str_nat (Suc 0) = ''1''"
    by (simp_all add: str_nat_digit digit_char_def)
  show ?thesis
    using generate_report_counts [of demo_articles demo_world]
    by (simp add: n g a d demo_today)
qed

section \<open>The report of no article\<close>

text \<open>
  C10. For the empty list \<open>generate_report\<close> returns the header with the count 0
  and no section: a text that is not empty. The function has no guard of its own
  against the empty list.
\<close>

theorem generate_report_empty:
  "fst (generate_report [] w) =
     ''# AI Competitive Intelligence Report'' @ NL @
     ''**Date**: '' @ strftime_Ymd (clock w (now_calls w)) @ NL @
     ''**Articles Found**: 0'' @ NL @
     NL @
     ''## Summary'' @ NL @
     ''This report contains the latest updates from key AI companies and competitors.'' @ NL @
     NL \<and>
   fst (generate_report [] w) \<noteq> [] \<and>
   group_by_source [] = []"
  by (simp add: generate_report_eq group_by_source_def report_header_def str_nat_digit
        digit_char_def)

section \<open>The daily run\<close>

lemma scrape_loop_frame:
  "files (snd (scrape_loop env cfg cs acc w)) = files w \<and>
   dirs (snd (scrape_loop env cfg cs acc w)) = dirs w"
proof (induction cs arbitrary: acc w)
  case Nil
  show ?case by simp
next
  case (Cons item cs)
  obtain name c where item: "item = (name, c)" by (cases item)
  define a1 where "a1 = fst (scrape_competitor env cfg name c w)"
  define w1 where "w1 = snd (scrape_competitor env cfg name c w)"
  have w1: "files w1 = files w" "dirs w1 = dirs w"
    by (simp_all add: w1_def scrape_competitor_frame)
  show ?case
  proof (cases "0 \<le> delay_between_requests cfg \<and> delay_between_requests cfg \<le> max_sleep")
    case False
    then have "snd (time_sleep (delay_between_requests cfg) w1) = w1"
      "\<exists>e. fst (time_sleep (delay_between_requests cfg) w1) = Inl e"
      by (auto simp: time_sleep_def max_sleep_def)
    then have "snd (scrape_loop env cfg (item # cs) acc w) = w1"
      by (auto simp: item case_prod_beta w1_def split: sum.splits)
    then show ?thesis
      using w1 by simp
  next
    case True
    then have "scrape_loop env cfg (item # cs) acc w =
        scrape_loop env cfg cs (acc @ a1) (w1\<lparr>sleeps := sleeps w1 @ [delay_between_requests cfg]\<rparr>)"
      by (simp add: item case_prod_beta time_sleep_ok w1_def a1_def)
    then show ?thesis
      using Cons.IH [of "acc @ a1" "w1\<lparr>sleeps := sleeps w1 @ [delay_between_requests cfg]\<rparr>"] w1
      by simp
  qed
qed

lemma scrape_all_competitors_frame:
  "files (snd (scrape_all_competitors env cfg w)) = files w"
  "dirs (snd (scrape_all_competitors env cfg w)) = dirs w"
  by (simp_all add: scrape_all_competitors_def scrape_loop_frame)

lemma save_report_ok:
  assumes "''reports'' \<notin> dom (files w)"
    and "''reports/ai_competitive_report_'' @ strftime_Ymd (clock w (now_calls w)) @ ''.md''
           \<notin> dirs w"
  shows "fst (save_report text w) =
           Inr (''reports/ai_competitive_report_'' @ strftime_Ymd (clock w (now_calls w)) @ ''.md'')"
    and "files (snd (save_report text w)) =
           (files w)(''reports/ai_competitive_report_'' @ strftime_Ymd (clock w (now_calls w)) @
                       ''.md'' \<mapsto> text)"
    and "dirs (snd (save_report text w)) = insert ''reports'' (dirs w)"
  using assms
  by (simp_all add: save_report_def os_makedirs_def datetime_now_def write_file_def Let_def
        py_print_def)

lemma run_daily_scrape_no_articles:
  assumes "scrape_all_competitors env cfg
             (py_print ''Starting daily competitive intelligence scrape...'' w) = (Inr [], w1)"
  shows "run_daily_scrape env cfg w = (Inr (), py_print ''No articles found during scraping.'' w1)"
  using assms by (simp add: run_daily_scrape_def Let_def)

lemma run_daily_scrape_some_articles:
  assumes "scrape_all_competitors env cfg
             (py_print ''Starting daily competitive intelligence scrape...'' w) = (Inr arts, w1)"
    and "arts \<noteq> []"
  shows "fst (run_daily_scrape env cfg w) =
           map_sum id (\<lambda>filename. ())
             (fst (save_report (fst (generate_report arts w1)) (snd (generate_report arts w1))))"
    and "files (snd (run_daily_scrape env cfg w)) =
           files (snd (save_report (fst (generate_report arts w1)) (snd (generate_report arts w1))))"
    and "dirs (snd (run_daily_scrape env cfg w)) =
           dirs (snd (save_report (fst (generate_report arts w1)) (snd (generate_report arts w1))))"
  using assms
  by (simp_all add: run_daily_scrape_def Let_def case_prod_beta py_print_def
        split: sum.splits prod.splits)

text \<open>
  C5. Let the aggregation of a run return the list \<open>arts\<close> and leave the world
  \<open>w1\<close>. When \<open>arts\<close> is empty the run ends normally, the files and directories are
  those of before the run, the clock has not been read again (the report is not
  rendered), and the last line printed is the one that says no articles were found.
  When \<open>arts\<close> is not empty the report rendered from \<open>arts\<close> is saved: unless the name
  \<open>reports\<close> is taken by a file or the name of the report by a directory, the files
  after the run are those of before plus the report under its dated name.
\<close>

theorem run_daily_scrape_empty:
  assumes "scrape_all_competitors env cfg
             (py_print ''Starting daily competitive intelligence scrape...'' w) = (Inr arts, w1)"
  shows "(arts = [] \<longrightarrow>
            fst (run_daily_scrape env cfg w) = Inr () \<and>
            files (snd (run_daily_scrape env cfg w)) = files w \<and>
            dirs (snd (run_daily_scrape env cfg w)) = dirs w \<and>
            now_calls (snd (run_daily_scrape env cfg w)) = now_calls w1 \<and>
            stdout (snd (run_daily_scrape env cfg w)) =
              stdout w1 @ [''No articles found during scraping.'']) \<and>
         (arts \<noteq> [] \<longrightarrow>
            ''reports'' \<notin> dom (files w) \<longrightarrow>
            ''reports/ai_competitive_report_'' @ strftime_Ymd (clock w1 (Suc (now_calls w1))) @
              ''.md'' \<notin> dirs w \<longrightarrow>
            fst (run_daily_scrape env cfg w) = Inr () \<and>
            files (snd (run_daily_scrape env cfg w)) =
              (files w)(''reports/ai_competitive_report_'' @
                          strftime_Ymd (clock w1 (Suc (now_calls w1))) @ ''.md''
                        \<mapsto> fst (generate_report arts w1)) \<and>
            dirs (snd (run_daily_scrape env cfg w)) = insert ''reports'' (dirs w))"
proof -
  let ?w0 = "py_print ''Starting daily competitive intelligence scrape...'' w"
  have "files (snd (scrape_all_competitors env cfg ?w0)) = files ?w0"
    "dirs (snd (scrape_all_competitors env cfg ?w0)) = dirs ?w0"
    by (rule scrape_all_competitors_frame)+
  then have "files w1 = files ?w0" "dirs w1 = dirs ?w0"
    by (simp_all add: assms)
  then have w1: "files w1 = files w" "dirs w1 = dirs w"
    by (simp_all add: py_print_def)
  have empty: ?thesis if "arts = []"
    using that assms w1
    by (simp add: run_daily_scrape_no_articles [of env cfg w w1] py_print_def)
  have some: ?thesis if ne: "arts \<noteq> []"
  proof -
    let ?r = "fst (generate_report arts w1)"
    let ?w2 = "snd (generate_report arts w1)"
    have w2: "files ?w2 = files w" "dirs ?w2 = dirs w" "clock ?w2 = clock w1"
      "now_calls ?w2 = Suc (now_calls w1)"
      by (simp_all add: generate_report_eq w1)
    have "fst (run_daily_scrape env cfg w) = Inr () \<and>
        files (snd (run_daily_scrape env cfg w)) =
          (files w)(''reports/ai_competitive_report_'' @
                      strftime_Ymd (clock w1 (Suc (now_calls w1))) @ ''.md'' \<mapsto> ?r) \<and>
        dirs (snd (run_daily_scrape env cfg w)) = insert ''reports'' (dirs w)"
      if a: "''reports'' \<notin> dom (files w)"
        and b: "''reports/ai_competitive_report_'' @
                  strftime_Ymd (clock w1 (Suc (now_calls w1))) @ ''.md'' \<notin> dirs w"
    proof -
      have a': "''reports'' \<notin> dom (files ?w2)"
        using a by (simp add: w2)
      have b': "''reports/ai_competitive_report_'' @
                  strftime_Ymd (clock ?w2 (now_calls ?w2)) @ ''.md'' \<notin> dirs ?w2"
        using b by (simp add: w2)
      show ?thesis
        using save_report_ok [OF a' b', of ?r]
        by (simp only: run_daily_scrape_some_articles [OF assms ne] w2) simp
    qed
    then show ?thesis
      using ne by blast
  qed
  show ?thesis
    using empty some by blast
qed

lemma demo_scrape_A:
  "scrape_all_competitors demo_env demo_cfgA
     (py_print ''Starting daily competitive intelligence scrape...'' demo_world) =
   (Inr [],
    demo_world\<lparr>stdout := [''Starting daily competitive intelligence scrape...'',
                            ''Scraping A...'', ''Error scraping A: timed out''],
                sleeps := [1]\<rparr>)"
proof -
  have "select_titles demo_env demo_cfgA demo_A = Inl (Exn RequestException ''timed out'')"
    by (simp add: select_titles_def select_candidates_def demo_env_def demo_A_def)
  then show ?thesis
    by (simp add: scrape_all_competitors_def demo_cfgA_def scrape_competitor_def Let_def
          time_sleep_def max_sleep_def py_print_def demo_world_def)
qed

lemma demo_clock_day: "strftime_Ymd (demo_clock n) = ''2024-03-07''"
  by (simp add: demo_clock_def strftime_Ymd_def zfill_def str_nat.simps digit_char_def)

theorem run_daily_scrape_empty_witness:
  "fst (scrape_all_competitors demo_env demo_cfgA
          (py_print ''Starting daily competitive intelligence scrape...'' demo_world)) = Inr [] \<and>
   fst (run_daily_scrape demo_env demo_cfgA demo_world) = Inr () \<and>
   files (snd (run_daily_scrape demo_env demo_cfgA demo_world)) = files demo_world \<and>
   dirs (snd (run_daily_scrape demo_env demo_cfgA demo_world)) = dirs demo_world \<and>
   stdout (snd (run_daily_scrape demo_env demo_cfgA demo_world)) =
     [''Starting daily competitive intelligence scrape...'', ''Scraping A...'',
      ''Error scraping A: timed out'', ''No articles found during scraping.''] \<and>
   fst (scrape_all_competitors demo_env demo_cfg
          (py_print ''Starting daily competitive intelligence scrape...'' demo_world)) \<noteq> Inr [] \<and>
   fst (run_daily_scrape demo_env demo_cfg demo_world) = Inr () \<and>
   dom (files (snd (run_daily_scrape demo_env demo_cfg demo_world))) =
     {''reports/ai_competitive_report_2024-03-07.md''} \<and>
   dirs (snd (run_daily_scrape demo_env demo_cfg demo_world)) = {''reports''}"
proof -
  let ?w0 = "py_print ''Starting daily competitive intelligence scrape...'' demo_world"
  have first: "fst (run_daily_scrape demo_env demo_cfgA demo_world) = Inr () \<and>
      files (snd (run_daily_scrape demo_env demo_cfgA demo_world)) = files demo_world \<and>
      dirs (snd (run_daily_scrape demo_env demo_cfgA demo_world)) = dirs demo_world \<and>
      stdout (snd (run_daily_scrape demo_env demo_cfgA demo_world)) =
        [''Starting daily competitive intelligence scrape...'', ''Scraping A...'',
         ''Error scraping A: timed out'', ''No articles found during scraping.'']"
    using run_daily_scrape_empty [OF demo_scrape_A] by simp
  define w1 where "w1 = snd (scrape_all_competitors demo_env demo_cfg ?w0)"
  have d: "0 \<le> delay_between_requests demo_cfg" "delay_between_requests demo_cfg \<le> max_sleep"
    by (simp_all add: demo_cfg_def max_sleep_def)
  from scrape_loop_ok [OF d, of demo_env "competitors demo_cfg" "[]" ?w0]
  obtain arts where
    r: "fst (scrape_all_competitors demo_env demo_cfg ?w0) = Inr arts" and
    core: "map article_core arts =
             concat (map (competitor_articles demo_env demo_cfg) (competitors demo_cfg))" and
    clk: "clock w1 = clock ?w0"
    unfolding w1_def scrape_all_competitors_def by auto
  have cs: "competitors demo_cfg = [(''A'', demo_A), (''B'', demo_B)]"
    by (simp add: demo_cfg_def)
  have "length (map article_core arts) = 2"
    unfolding core cs
    by (simp add: competitor_articles_def demo_select_titles)
  then have ne: "arts \<noteq> []"
    by auto
  have eq: "scrape_all_competitors demo_env demo_cfg ?w0 = (Inr arts, w1)"
    using r by (simp add: w1_def prod_eq_iff)
  have day: "strftime_Ymd (clock w1 (Suc (now_calls w1))) = ''2024-03-07''"
    by (simp add: clk py_print_def demo_world_def demo_clock_day)
  have free: "''reports'' \<notin> dom (files demo_world)"
    "''reports/ai_competitive_report_'' @ strftime_Ymd (clock w1 (Suc (now_calls w1))) @ ''.md''
       \<notin> dirs demo_world"
    by (simp_all add: demo_world_def)
  have second: "fst (run_daily_scrape demo_env demo_cfg demo_world) = Inr () \<and>
      dom (files (snd (run_daily_scrape demo_env demo_cfg demo_world))) =
        {''reports/ai_competitive_report_2024-03-07.md''} \<and>
      dirs (snd (run_daily_scrape demo_env demo_cfg demo_world)) = {''reports''}"
    using run_daily_scrape_empty [OF eq] ne free
    by (simp add: day) (simp add: demo_world_def)
  have "fst (scrape_all_competitors demo_env demo_cfg ?w0) \<noteq> Inr []"
    using r ne by simp
  with first second demo_scrape_A show ?thesis
    by simp
qed

section \<open>Loading the configuration\<close>

text \<open>
  C8. When the configuration file is missing, that is when \<open>open\<close> raises
  \<open>FileNotFoundError\<close> for its name, \<open>load_config\<close> prints a line and returns the
  built-in default configuration; that default names the two competitors OpenAI and
  Google AI, keeps 5 articles for each site and pauses 2 seconds between requests.
  When the file opens and \<open>json.load\<close> raises on its text an exception of another
  class, as it does on malformed JSON, \<open>load_config\<close> raises that same exception: it
  is not caught, and \<open>main\<close> ends with it before any scraping.
\<close>

theorem load_config_missing_or_malformed:
  "(open_read env config_file = Inl e \<longrightarrow> exn_class_of e = FileNotFoundError \<longrightarrow>
      load_config env config_file w =
        (Inr get_default_config,
         py_print (''Config file '' @ config_file @ '' not found. Using default settings.'') w)) \<and>
   (open_read env config_file = Inr txt \<longrightarrow> json_load env txt = Inl e' \<longrightarrow>
      exn_class_of e' \<noteq> FileNotFoundError \<longrightarrow>
      load_config env config_file w = (Inl e', w)) \<and>
   (open_read env ''config.json'' = Inr txt \<longrightarrow> json_load env txt = Inl e' \<longrightarrow>
      exn_class_of e' \<noteq> FileNotFoundError \<longrightarrow>
      main env w = (Inl e', w)) \<and>
   get_default_config =
     \<lparr>competitors =
        [(''OpenAI'',
          \<lparr>blog_url = ''https://openai.com/blog'',
           selectors = \<lparr>sel_title = ''h3 a'', sel_date = ''.published-date'',
                        sel_summary = ''.excerpt''\<rparr>\<rparr>),
         (''Google AI'',
          \<lparr>blog_url = ''https://ai.googleblog.com/'',
           selectors = \<lparr>sel_title = ''.post-title a'', sel_date = ''.published'',
                        sel_summary = ''.post-body''\<rparr>\<rparr>)],
      max_articles = 5,
      delay_between_requests = 2\<rparr> \<and>
   map fst (competitors get_default_config) = [''OpenAI'', ''Google AI''] \<and>
   max_articles get_default_config = 5 \<and>
   delay_between_requests get_default_config = 2"
proof -
  have missing: "load_config env config_file w =
      (Inr get_default_config,
       py_print (''Config file '' @ config_file @ '' not found. Using default settings.'') w)"
    if "open_read env config_file = Inl e" "exn_class_of e = FileNotFoundError"
    using that by (simp add: load_config_def)
  have malformed: "load_config env p w = (Inl e', w)"
    if "open_read env p = Inr txt" "json_load env txt = Inl e'"
      "exn_class_of e' \<noteq> FileNotFoundError" for p
    using that by (simp add: load_config_def)
  have fatal: "main env w = (Inl e', w)"
    if "open_read env ''config.json'' = Inr txt" "json_load env txt = Inl e'"
      "exn_class_of e' \<noteq> FileNotFoundError"
    using malformed [OF that] by (simp add: main_def)
  have dflt: "map fst (competitors get_default_config) = [''OpenAI'', ''Google AI'']"
    "max_articles get_default_config = 5" "delay_between_requests get_default_config = 2"
    by (simp_all add: get_default_config_def)
  show ?thesis
    using missing malformed fatal dflt get_default_config_def by blast
qed

theorem load_config_missing_or_malformed_witness:
  "exn_class_of
     (Exn FileNotFoundError
        (''[Errno 2] No such file or directory: '' @ [CHR 0x27] @ ''settings.json'' @ [CHR 0x27])) =
     FileNotFoundError \<and>
   open_read demo_env ''settings.json'' =
     Inl (Exn FileNotFoundError
            (''[Errno 2] No such file or directory: '' @ [CHR 0x27] @ ''settings.json'' @ [CHR 0x27])) \<and>
   load_config demo_env ''settings.json'' demo_world =
     (Inr get_default_config,
      py_print ''Config file settings.json not found. Using default settings.'' demo_world) \<and>
   open_read demo_env ''config.json'' = Inr ''{'' \<and>
   json_load demo_env ''{'' = Inl demo_json_error \<and>
   exn_class_of demo_json_error = JSONDecodeError \<and>
   load_config demo_env ''config.json'' demo_world = (Inl demo_json_error, demo_world) \<and>
   main demo_env demo_world = (Inl demo_json_error, demo_world)"
proof -
  let ?e = "Exn FileNotFoundError
      (''[Errno 2] No such file or directory: '' @ [CHR 0x27] @ ''settings.json'' @ [CHR 0x27])"
  have a: "open_read demo_env ''settings.json'' = Inl ?e" "exn_class_of ?e = FileNotFoundError"
    by (simp_all add: demo_env_def)
  have b: "open_read demo_env ''config.json'' = Inr ''{''"
    by (simp add: demo_env_def)
  have c: "json_load demo_env ''{'' = Inl demo_json_error"
    "exn_class_of demo_json_error = JSONDecodeError"
    "exn_class_of demo_json_error \<noteq> FileNotFoundError"
    by (simp_all add: demo_env_def demo_json_error_def)
  have "load_config demo_env ''settings.json'' demo_world =
      (Inr get_default_config,
       py_print ''Config file settings.json not found. Using default settings.'' demo_world)"
    using load_config_missing_or_malformed [of demo_env "''settings.json''" ?e demo_world]
      a by simp
  moreover have "load_config demo_env ''config.json'' demo_world = (Inl demo_json_error, demo_world)"
    "main demo_env demo_world = (Inl demo_json_error, demo_world)"
    using load_config_missing_or_malformed [of demo_env "''config.json''" _ demo_world "''{''"
        demo_json_error] b c
    by simp_all
  ultimately show ?thesis
    using a b c by simp
qed

end
